theory Spec2Isabelle
  imports Complex_Main "HOL-Library.Multiset" "HOL-Library.Sublist"
begin

section \<open>Python values used by the pipeline\<close>

text \<open>
  The two stage tools (\<^verbatim>\<open>collect_data.py\<close>, \<^verbatim>\<open>prepare_dataset.py\<close>) compute with Python
  floats (quality scores, the train ratio), strings, \<^verbatim>\<open>None\<close> and JSON-shaped dictionaries.
  A float is an IEEE-754 binary64 value: a finite one is kept as the exact rational it
  denotes, next to the two infinities and NaN.  Signed zero is not distinguished: no
  operation of the pipeline observes the sign of a zero.
\<close>

datatype py_error = ValueError | OverflowError | KeyError | TypeError | JSONDecodeError

datatype pyfloat = Finite rat | PInf | NInf | NaN

function bit_length :: "int \<Rightarrow> nat" where
  "bit_length n = (if n \<le> 0 then 0 else Suc (bit_length (n div 2)))"
  by pat_completeness auto

termination bit_length
  by (relation "measure nat") auto

declare bit_length.simps [simp del]

definition pow2 :: "int \<Rightarrow> rat" where
  "pow2 k = (if 0 \<le> k then 2 ^ nat k else 1 / 2 ^ nat (- k))"

definition ilog2 :: "rat \<Rightarrow> int" where
  \<comment> \<open>the binary exponent of a positive rational: \<open>pow2 (ilog2 a) \<le> a < pow2 (ilog2 a + 1)\<close>\<close>
  "ilog2 a = (if 1 \<le> a then int (bit_length \<lfloor>a\<rfloor>) - 1
              else - int (bit_length (\<lceil>1 / a\<rceil> - 1)))"

definition round_half_even :: "rat \<Rightarrow> int" where
  "round_half_even x =
     (let f = \<lfloor>x\<rfloor>; r = x - of_int f
      in if r < 1 / 2 then f else if 1 / 2 < r then f + 1 else if even f then f else f + 1)"

definition round_double :: "rat \<Rightarrow> pyfloat" where
  \<comment> \<open>round-to-nearest, ties-to-even, onto binary64: 53 significant bits, least exponent
      \<open>-1074\<close> (subnormals), overflow to an infinity from \<open>2 ^ 1024\<close> on\<close>
  "round_double q =
     (if q = 0 then Finite 0
      else let a = \<bar>q\<bar>;
               e = max (- 1074) (ilog2 a - 52);
               m = round_half_even (a / pow2 e);
               v = of_int m * pow2 e
           in if 2 ^ 1024 \<le> v then (if 0 < q then PInf else NInf)
              else Finite (if 0 < q then v else - v))"

definition is_double :: "rat \<Rightarrow> bool" where
  "is_double q \<longleftrightarrow> round_double q = Finite q"

definition float_of_nat :: "nat \<Rightarrow> pyfloat" where
  \<comment> \<open>the conversion of the \<^verbatim>\<open>int\<close> operand of \<^verbatim>\<open>int * float\<close>\<close>
  "float_of_nat n = round_double (of_nat n)"

fun fsign :: "pyfloat \<Rightarrow> int" where
  "fsign (Finite a) = (if a = 0 then 0 else if 0 < a then 1 else - 1)"
| "fsign PInf = 1"
| "fsign NInf = - 1"
| "fsign NaN = 0"

fun fmul :: "pyfloat \<Rightarrow> pyfloat \<Rightarrow> pyfloat" where
  "fmul (Finite a) (Finite b) = round_double (a * b)"
| "fmul NaN y = NaN"
| "fmul x NaN = NaN"
| "fmul x y = (let s = fsign x * fsign y
               in if s = 0 then NaN else if 0 < s then PInf else NInf)"

definition trunc :: "rat \<Rightarrow> int" where
  "trunc q = (if 0 \<le> q then \<lfloor>q\<rfloor> else \<lceil>q\<rceil>)"

fun py_int :: "pyfloat \<Rightarrow> py_error + int" where
  \<comment> \<open>\<^verbatim>\<open>int(x)\<close> of a float: truncation toward zero; NaN and the infinities raise\<close>
  "py_int (Finite q) = Inr (trunc q)"
| "py_int NaN = Inl ValueError"
| "py_int PInf = Inl OverflowError"
| "py_int NInf = Inl OverflowError"

fun py_ge :: "pyfloat \<Rightarrow> pyfloat \<Rightarrow> bool" where
  \<comment> \<open>\<^verbatim>\<open>x >= y\<close> on floats: every comparison with NaN is false\<close>
  "py_ge NaN y = False"
| "py_ge x NaN = False"
| "py_ge PInf y = True"
| "py_ge x NInf = True"
| "py_ge NInf y = False"
| "py_ge x PInf = False"
| "py_ge (Finite a) (Finite b) = (b \<le> a)"

section \<open>Slices\<close>

definition slice_index :: "nat \<Rightarrow> int \<Rightarrow> nat" where
  \<comment> \<open>how a slice bound is read against a list of length \<open>n\<close>: a negative bound counts
      from the end, and every bound is clipped into \<open>0..n\<close>\<close>
  "slice_index n k = (if k < 0 then nat (max 0 (int n + k)) else min n (nat k))"

definition slice_to :: "'a list \<Rightarrow> int \<Rightarrow> 'a list" where
  "slice_to xs k = take (slice_index (length xs) k) xs"

definition slice_from :: "'a list \<Rightarrow> int \<Rightarrow> 'a list" where
  "slice_from xs k = drop (slice_index (length xs) k) xs"

section \<open>The splitter (\<^verbatim>\<open>prepare_dataset.py\<close>)\<close>


definition swap :: "nat \<Rightarrow> nat \<Rightarrow> 'a list \<Rightarrow> 'a list" where
  \<comment> \<open>\<^verbatim>\<open>x[i], x[j] = x[j], x[i]\<close>\<close>
  "swap i j x = (x[i := x ! j])[j := x ! i]"

fun shuffle_loop :: "(nat \<Rightarrow> 'g \<Rightarrow> nat \<times> 'g) \<Rightarrow> nat \<Rightarrow> 'a list \<Rightarrow> 'g \<Rightarrow> 'a list \<times> 'g" where
  \<comment> \<open>\<^verbatim>\<open>for i in reversed(range(1, len(x)))\<close>, the second argument being the current \<open>i\<close>\<close>
  "shuffle_loop rb 0 x g = (x, g)"
| "shuffle_loop rb (Suc k) x g =
     (let (j, g') = rb (Suc k + 1) g
      in shuffle_loop rb k (swap (Suc k) j x) g')"

definition shuffle :: "(nat \<Rightarrow> 'g \<Rightarrow> nat \<times> 'g) \<Rightarrow> 'a list \<Rightarrow> 'g \<Rightarrow> 'a list \<times> 'g" where
  "shuffle rb x g = shuffle_loop rb (length x - 1) x g"

definition split_index :: "nat \<Rightarrow> pyfloat \<Rightarrow> py_error + int" where
  \<comment> \<open>\<^verbatim>\<open>int(len(examples) * train_ratio)\<close>\<close>
  "split_index n train_ratio =
     (case float_of_nat n of
        Finite a \<Rightarrow> py_int (fmul (Finite a) train_ratio)
      | _ \<Rightarrow> Inl OverflowError)"

definition split_dataset ::
  "(nat \<Rightarrow> 'g \<Rightarrow> nat \<times> 'g) \<Rightarrow> 'a list \<Rightarrow> pyfloat \<Rightarrow> 'g \<Rightarrow> (py_error + 'a list \<times> 'a list) \<times> 'g" where
  "split_dataset rb examples train_ratio g =
     (let (shuffled, g') = shuffle rb examples g
      in case split_index (length shuffled) train_ratio of
           Inl err \<Rightarrow> (Inl err, g')
         | Inr split_idx \<Rightarrow> (Inr (slice_to shuffled split_idx, slice_from shuffled split_idx), g'))"

definition random_seed :: "(int \<Rightarrow> 'g) \<Rightarrow> int \<Rightarrow> 'g \<Rightarrow> 'g" where
  \<comment> \<open>\<^verbatim>\<open>random.seed(args.seed)\<close>: the global generator is overwritten\<close>
  "random_seed sd s g = sd s"

definition seeded_split ::
  "(nat \<Rightarrow> 'g \<Rightarrow> nat \<times> 'g) \<Rightarrow> (int \<Rightarrow> 'g) \<Rightarrow> int \<Rightarrow> pyfloat \<Rightarrow> 'a list \<Rightarrow> 'g \<Rightarrow> (py_error + 'a list \<times> 'a list) \<times> 'g" where
  \<comment> \<open>the part of \<^verbatim>\<open>main\<close> from \<^verbatim>\<open>random.seed\<close> (line 88) to \<^verbatim>\<open>split_dataset\<close> (line 111);
      nothing in between draws from the generator\<close>
  "seeded_split rb sd s train_ratio formatted g = split_dataset rb formatted train_ratio (random_seed sd s g)"

section \<open>JSON-shaped values\<close>

text \<open>
  What \<^verbatim>\<open>json.loads\<close> returns and \<^verbatim>\<open>json.dumps\<close> accepts: \<^verbatim>\<open>None\<close>, booleans, numbers, strings,
  lists and dictionaries with string keys.  A dictionary is an association list whose first
  binding of a key is the one \<^verbatim>\<open>d[k]\<close> and \<^verbatim>\<open>d.get(k)\<close> read.
\<close>

datatype json = JNull | JBool bool | JNum pyfloat | JStr string | JArr "json list" | JObj "(string \<times> json) list"

fun truthy :: "json \<Rightarrow> bool" where
  "truthy JNull = False"
| "truthy (JBool b) = b"
| "truthy (JNum x) = (x \<noteq> Finite 0)"
| "truthy (JStr s) = (s \<noteq> [])"
| "truthy (JArr xs) = (xs \<noteq> [])"
| "truthy (JObj kvs) = (kvs \<noteq> [])"

definition truthy_text :: "string option \<Rightarrow> bool" where
  \<comment> \<open>the truth value of a text column: \<^verbatim>\<open>None\<close> and the empty string are false\<close>
  "truthy_text t = (case t of None \<Rightarrow> False | Some s \<Rightarrow> s \<noteq> [])"

definition json_of_text :: "string option \<Rightarrow> json" where
  "json_of_text t = (case t of None \<Rightarrow> JNull | Some s \<Rightarrow> JStr s)"

section \<open>The collection stage (\<^verbatim>\<open>collect_data.py\<close>)\<close>

record TrainingExample =
  input_text :: "string option"
  output_text :: "string option"
  source_type :: "string option"
  quality_score :: pyfloat
  metadata :: json

text \<open>
  The store is the PostgreSQL database behind \<^verbatim>\<open>self.conn\<close>: two tables, each a list of rows
  in the order the cursor returns them.  A nullable column is an \<open>option\<close>; the \<^verbatim>\<open>metadata\<close>
  column arrives as a JSON value, \<open>JNull\<close> for SQL \<^verbatim>\<open>NULL\<close>.  The type of
  \<^verbatim>\<open>blog_posts.id\<close> is not fixed by the code, which only applies \<^verbatim>\<open>str\<close> to it: the
  conversion is the parameter \<open>str\<close> below.
\<close>

record 'i blog_post =
  raw_transcription :: "string option"
  final_content :: "string option"
  title :: "string option"
  post_id :: 'i
  status :: "string option"

record training_pair =
  row_input_text :: "string option"
  row_output_text :: "string option"
  row_source_type :: "string option"
  row_quality_score :: "pyfloat option"
  row_metadata :: json

record 'i store =
  blog_posts :: "'i blog_post list"
  training_pairs :: "training_pair list"

record DataCollector =
  examples :: "TrainingExample list"

definition blog_posts_query :: "'i store \<Rightarrow> 'i blog_post list" where
  \<comment> \<open>\<^verbatim>\<open>WHERE raw_transcription IS NOT NULL AND final_content IS NOT NULL
      AND status IN ('published', 'public')\<close>\<close>
  "blog_posts_query st =
     filter (\<lambda>r. raw_transcription r \<noteq> None \<and> final_content r \<noteq> None
                 \<and> (status r = Some ''published'' \<or> status r = Some ''public''))
            (blog_posts st)"

definition training_pairs_query :: "'i store \<Rightarrow> training_pair list" where
  \<comment> \<open>\<^verbatim>\<open>WHERE output_text IS NOT NULL AND output_text != ''\<close>\<close>
  "training_pairs_query st =
     filter (\<lambda>r. row_output_text r \<noteq> None \<and> row_output_text r \<noteq> Some []) (training_pairs st)"

definition blog_example :: "('i \<Rightarrow> string) \<Rightarrow> 'i blog_post \<Rightarrow> TrainingExample" where
  "blog_example str r =
     \<lparr>input_text = raw_transcription r, output_text = final_content r,
      source_type = Some ''blog'', quality_score = Finite 1,
      metadata = JObj [(''post_id'', JStr (str (post_id r))), (''title'', json_of_text (title r))]\<rparr>"

fun blog_loop :: "('i \<Rightarrow> string) \<Rightarrow> 'i blog_post list \<Rightarrow> TrainingExample list \<Rightarrow> TrainingExample list" where
  "blog_loop str [] exs = exs"
| "blog_loop str (r # rows) exs =
     blog_loop str rows
       (if truthy_text (raw_transcription r) \<and> truthy_text (final_content r)
        then exs @ [blog_example str r] else exs)"

definition collect_from_blog_posts :: "('i \<Rightarrow> string) \<Rightarrow> 'i store \<Rightarrow> DataCollector \<Rightarrow> DataCollector" where
  "collect_from_blog_posts str st c = c\<lparr>examples := blog_loop str (blog_posts_query st) (examples c)\<rparr>"

definition score_or_default :: "pyfloat option \<Rightarrow> pyfloat" where
  \<comment> \<open>\<^verbatim>\<open>quality_score or 1.0\<close>: \<^verbatim>\<open>None\<close> and a zero are false\<close>
  "score_or_default q = (case q of None \<Rightarrow> Finite 1 | Some x \<Rightarrow> if x = Finite 0 then Finite 1 else x)"

definition metadata_or_empty :: "json \<Rightarrow> json" where
  \<comment> \<open>\<^verbatim>\<open>metadata or {}\<close>\<close>
  "metadata_or_empty m = (if truthy m then m else JObj [])"

definition pair_example :: "training_pair \<Rightarrow> TrainingExample" where
  "pair_example r =
     \<lparr>input_text = row_input_text r, output_text = row_output_text r,
      source_type = row_source_type r, quality_score = score_or_default (row_quality_score r),
      metadata = metadata_or_empty (row_metadata r)\<rparr>"

fun pairs_loop :: "training_pair list \<Rightarrow> TrainingExample list \<Rightarrow> TrainingExample list" where
  "pairs_loop [] exs = exs"
| "pairs_loop (r # rows) exs = pairs_loop rows (exs @ [pair_example r])"

definition collect_from_training_pairs :: "'i store \<Rightarrow> DataCollector \<Rightarrow> DataCollector" where
  "collect_from_training_pairs st c = c\<lparr>examples := pairs_loop (training_pairs_query st) (examples c)\<rparr>"

definition collect_from_twitch :: "DataCollector \<Rightarrow> DataCollector" where
  \<comment> \<open>the placeholder: it prints and collects nothing\<close>
  "collect_from_twitch c = c"

definition filter_by_quality :: "pyfloat \<Rightarrow> DataCollector \<Rightarrow> DataCollector" where
  "filter_by_quality min_score c =
     c\<lparr>examples := filter (\<lambda>ex. py_ge (quality_score ex) min_score) (examples c)\<rparr>"


definition LF :: char where
  "LF = CHR 0x0A"

definition CR :: char where
  "CR = CHR 0x0D"


definition collect_main :: "('i \<Rightarrow> string) \<Rightarrow> 'i store \<Rightarrow> bool \<Rightarrow> pyfloat \<Rightarrow> DataCollector" where
  \<comment> \<open>\<^verbatim>\<open>main\<close> after a successful \<^verbatim>\<open>connect\<close>, up to the collector that is saved;
      \<open>twitch\<close> tells whether \<^verbatim>\<open>--twitch-dir\<close> was given\<close>
  "collect_main str st twitch min_quality =
     (let c0 = \<lparr>examples = []\<rparr>;
          c1 = collect_from_blog_posts str st c0;
          c2 = collect_from_training_pairs st c1;
          c3 = (if twitch then collect_from_twitch c2 else c2)
      in filter_by_quality min_quality c3)"

section \<open>The preparation stage (\<^verbatim>\<open>prepare_dataset.py\<close>)\<close>

subsection \<open>Reading the intermediate file\<close>

text \<open>
  \<^verbatim>\<open>for line in f\<close> on a file opened in text mode: \<^verbatim>\<open>\r\n\<close> and a lone \<^verbatim>\<open>\r\<close> are read as
  \<^verbatim>\<open>\n\<close>, and each line keeps its terminator; a last line without one is still a line.
  \<open>loads\<close> is \<^verbatim>\<open>json.loads\<close>, \<open>None\<close> standing for the \<^verbatim>\<open>JSONDecodeError\<close> it raises.
\<close>

fun universal_newlines :: "string \<Rightarrow> string" where
  "universal_newlines [] = []"
| "universal_newlines [c] = [if c = CR then LF else c]"
| "universal_newlines (c # d # cs) =
     (if c = CR \<and> d = LF then LF # universal_newlines cs
      else if c = CR then LF # universal_newlines (d # cs)
      else c # universal_newlines (d # cs))"

fun lines_from :: "string \<Rightarrow> string \<Rightarrow> string list" where
  \<comment> \<open>the first argument is the line read so far\<close>
  "lines_from cur [] = (if cur = [] then [] else [cur])"
| "lines_from cur (c # cs) =
     (if c = LF then (cur @ [LF]) # lines_from [] cs else lines_from (cur @ [c]) cs)"

definition file_lines :: "string \<Rightarrow> string list" where
  "file_lines content = lines_from [] (universal_newlines content)"

fun read_loop :: "(string \<Rightarrow> json option) \<Rightarrow> string list \<Rightarrow> json list \<Rightarrow> py_error + json list" where
  \<comment> \<open>\<^verbatim>\<open>for line in f: examples.append(json.loads(line))\<close>\<close>
  "read_loop loads [] acc = Inr acc"
| "read_loop loads (l # ls) acc =
     (case loads l of None \<Rightarrow> Inl JSONDecodeError | Some v \<Rightarrow> read_loop loads ls (acc @ [v]))"

definition load_examples :: "(string \<Rightarrow> json option) \<Rightarrow> string \<Rightarrow> py_error + json list" where
  "load_examples loads content = read_loop loads (file_lines content) []"

subsection \<open>The formatter\<close>

text \<open>
  The formatted dictionary with its keys \<^verbatim>\<open>instruction\<close>, \<^verbatim>\<open>input\<close>, \<^verbatim>\<open>output\<close> and
  \<^verbatim>\<open>source\<close>, each field named \<open>fe_\<close> and the key.
\<close>

record FormattedExample =
  fe_instruction :: string
  fe_input :: json
  fe_output :: json
  fe_source :: json

definition instruction_template :: string where
  "instruction_template =
     ''Transform the following raw dictation into a polished, narrative-driven blog post.'' @ [LF] @
     [LF] @
     ''Guidelines:'' @ [LF] @
     ''- Identify and clearly state the central thesis'' @ [LF] @
     ''- Organize content with strong narrative flow'' @ [LF] @
     ''- Maintain authentic voice and tone'' @ [LF] @
     ''- Include engaging opening and strong conclusion'' @ [LF] @
     ''- End with clear call to action'' @ [LF]"

definition dict_get :: "json \<Rightarrow> string \<Rightarrow> json option" where
  \<comment> \<open>the value bound to a key of a dictionary, \<open>None\<close> when the key is missing\<close>
  "dict_get d k = (case d of JObj kvs \<Rightarrow> map_of kvs k | _ \<Rightarrow> None)"

definition is_dict :: "json \<Rightarrow> bool" where
  "is_dict d = (case d of JObj kvs \<Rightarrow> True | _ \<Rightarrow> False)"

definition subscript :: "json \<Rightarrow> string \<Rightarrow> py_error + json" where
  \<comment> \<open>\<^verbatim>\<open>example[k]\<close>: \<^verbatim>\<open>KeyError\<close> on a missing key, \<^verbatim>\<open>TypeError\<close> when the value
      is not a dictionary\<close>
  "subscript d k =
     (if is_dict d then (case dict_get d k of None \<Rightarrow> Inl KeyError | Some v \<Rightarrow> Inr v)
      else Inl TypeError)"

definition get_default :: "json \<Rightarrow> string \<Rightarrow> json \<Rightarrow> json" where
  \<comment> \<open>\<^verbatim>\<open>example.get(k, default)\<close> on a dictionary\<close>
  "get_default d k dflt = (case dict_get d k of None \<Rightarrow> dflt | Some v \<Rightarrow> v)"

definition format_as_instruction :: "json \<Rightarrow> py_error + FormattedExample" where
  "format_as_instruction example =
     (case subscript example ''input_text'' of
        Inl err \<Rightarrow> Inl err
      | Inr i \<Rightarrow>
          (case subscript example ''output_text'' of
             Inl err \<Rightarrow> Inl err
           | Inr out \<Rightarrow>
               Inr \<lparr>fe_instruction = instruction_template, fe_input = i, fe_output = out,
                    fe_source = get_default example ''source_type'' (JStr ''unknown'')\<rparr>))"

fun format_all :: "json list \<Rightarrow> py_error + FormattedExample list" where
  \<comment> \<open>\<^verbatim>\<open>[format_as_instruction(ex) for ex in examples]\<close>: the first error ends the run\<close>
  "format_all [] = Inr []"
| "format_all (ex # exs) =
     (case format_as_instruction ex of
        Inl err \<Rightarrow> Inl err
      | Inr f \<Rightarrow> (case format_all exs of Inl err \<Rightarrow> Inl err | Inr fs \<Rightarrow> Inr (f # fs)))"

subsection \<open>Records that carry both text fields\<close>

text \<open>
  Every record the collection stage writes is a dictionary with the keys \<^verbatim>\<open>input_text\<close> and
  \<^verbatim>\<open>output_text\<close> (\<open>to_dict\<close>).  On such a record \<^verbatim>\<open>format_as_instruction\<close> raises nothing
  and returns \<open>formatted_of\<close>.
\<close>

definition has_text_fields :: "json \<Rightarrow> bool" where
  "has_text_fields ex \<longleftrightarrow>
     is_dict ex \<and> dict_get ex ''input_text'' \<noteq> None \<and> dict_get ex ''output_text'' \<noteq> None"

definition formatted_of :: "json \<Rightarrow> FormattedExample" where
  "formatted_of ex =
     \<lparr>fe_instruction = instruction_template,
      fe_input = get_default ex ''input_text'' JNull,
      fe_output = get_default ex ''output_text'' JNull,
      fe_source = get_default ex ''source_type'' (JStr ''unknown'')\<rparr>"

subsection \<open>The JSON text of a value\<close>

text \<open>
  \<^verbatim>\<open>json.dumps\<close> with its defaults (\<^verbatim>\<open>ensure_ascii\<close>, the separators \<^verbatim>\<open>", "\<close> and
  \<^verbatim>\<open>": "\<close>) and \<^verbatim>\<open>json.loads\<close>, both library code, modelled on the values of type
  \<open>json\<close>.  A character is a code point below 256; every character outside the printable
  ASCII range is written as a \<^verbatim>\<open>\u00XX\<close> escape.  The text of a number is library code of
  its own (\<^verbatim>\<open>float.__repr__\<close> and \<^verbatim>\<open>float\<close>): the parameters \<open>fr\<close> and \<open>fp\<close>.  The reader
  takes as a number token the characters up to the next delimiter and hands them to \<open>fp\<close>.
  The second argument of \<open>parse_value\<close> bounds the number of nested calls; \<open>json_loads\<close>
  starts it at the length of the text.  A key read twice keeps its first position and its
  last value, as in a Python dictionary.
\<close>

definition QUOTE :: char where
  "QUOTE = CHR 0x22"

definition BACKSLASH :: char where
  "BACKSLASH = CHR 0x5C"

definition TAB :: char where
  "TAB = CHR 0x09"

definition BS :: char where
  "BS = CHR 0x08"

definition FF :: char where
  "FF = CHR 0x0C"

definition hex_digit :: "nat \<Rightarrow> char" where
  "hex_digit n = (if n < 10 then char_of (48 + n) else char_of (87 + n))"


definition escape_char :: "char \<Rightarrow> string" where
  "escape_char c =
     (if c = QUOTE then [BACKSLASH, QUOTE]
      else if c = BACKSLASH then [BACKSLASH, BACKSLASH]
      else if c = LF then [BACKSLASH, CHR ''n'']
      else if c = CR then [BACKSLASH, CHR ''r'']
      else if c = TAB then [BACKSLASH, CHR ''t'']
      else if c = BS then [BACKSLASH, CHR ''b'']
      else if c = FF then [BACKSLASH, CHR ''f'']
      else if 32 \<le> (of_char c :: nat) \<and> (of_char c :: nat) \<le> 126 then [c]
      else [BACKSLASH, CHR ''u'', CHR ''0'', CHR ''0'',
            hex_digit (of_char c div 16), hex_digit (of_char c mod 16)])"

definition dumps_string :: "string \<Rightarrow> string" where
  "dumps_string s = QUOTE # concat (map escape_char s) @ [QUOTE]"

fun join_items :: "string list \<Rightarrow> string" where
  "join_items [] = []"
| "join_items [x] = x"
| "join_items (x # y # ys) = x @ '', '' @ join_items (y # ys)"

fun json_dumps :: "(pyfloat \<Rightarrow> string) \<Rightarrow> json \<Rightarrow> string" where
  "json_dumps fr JNull = ''null''"
| "json_dumps fr (JBool b) = (if b then ''true'' else ''false'')"
| "json_dumps fr (JNum x) = fr x"
| "json_dumps fr (JStr s) = dumps_string s"
| "json_dumps fr (JArr xs) = ''['' @ join_items (map (json_dumps fr) xs) @ '']''"
| "json_dumps fr (JObj kvs) =
     ''{'' @ join_items (map (\<lambda>kv. dumps_string (fst kv) @ '': '' @ json_dumps fr (snd kv)) kvs) @ ''}''"















text \<open>
  The texts of the two scores used in the evaluated round trip, as \<^verbatim>\<open>repr\<close> prints and
  \<^verbatim>\<open>float\<close> reads them.
\<close>

definition sample_repr :: "pyfloat \<Rightarrow> string" where
  "sample_repr x = (if x = Finite 1 then ''1.0'' else if x = Finite (1 / 2) then ''0.5'' else ''NaN'')"


subsection \<open>A concrete generator for evaluations\<close>

text \<open>
  The theorems below hold for every generator.  Where a theorem is evaluated at a concrete
  input, this linear congruential generator stands for the library's.
\<close>

definition lcg_randbelow :: "nat \<Rightarrow> nat \<Rightarrow> nat \<times> nat" where
  "lcg_randbelow n g = (g mod n, (1103515245 * g + 12345) mod 2147483648)"

definition lcg_seed :: "int \<Rightarrow> nat" where
  "lcg_seed s = nat (s mod 2147483648)"

section \<open>Binary64 rounding\<close>

lemma bit_length_upper: "0 \<le> n \<Longrightarrow> n < 2 ^ bit_length n"
proof (induction n rule: bit_length.induct)
  case (1 n)
  show ?case
  proof (cases "n \<le> 0")
    case True
    with 1(2) have "n = 0" by simp
    then show ?thesis by (simp add: bit_length.simps)
  next
    case False
    then have IH: "n div 2 < 2 ^ bit_length (n div 2)" using 1 by simp
    have "n < 2 * (n div 2) + 2" by linarith
    with IH have "n < 2 * 2 ^ bit_length (n div 2)" by linarith
    then show ?thesis using False by (simp add: bit_length.simps [of n])
  qed
qed

lemma bit_length_lower: "1 \<le> n \<Longrightarrow> 2 ^ bit_length n \<le> 2 * n"
proof (induction n rule: bit_length.induct)
  case (1 n)
  show ?case
  proof (cases "n = 1")
    case True
    then show ?thesis by (simp add: bit_length.simps [of 1] bit_length.simps [of 0])
  next
    case False
    with 1(2) have "1 \<le> n div 2" by linarith
    then have IH: "2 ^ bit_length (n div 2) \<le> 2 * (n div 2)" using 1 by simp
    have "2 * (n div 2) \<le> n" by linarith
    with IH have "2 * 2 ^ bit_length (n div 2) \<le> 2 * n" by linarith
    then show ?thesis using 1(2) by (simp add: bit_length.simps [of n])
  qed
qed

lemma bit_length_pos: "1 \<le> n \<Longrightarrow> 0 < bit_length n"
  by (simp add: bit_length.simps [of n])

lemma pow2_powi: "pow2 k = 2 powi k"
  by (simp add: pow2_def power_int_def power_one_over inverse_eq_divide)

lemma pow2_pos: "0 < pow2 k"
  by (simp add: pow2_powi)

lemma pow2_add: "pow2 (a + b) = pow2 a * pow2 b"
  by (simp add: pow2_powi power_int_add)

lemma pow2_mono: "a \<le> b \<Longrightarrow> pow2 a \<le> pow2 b"
  by (simp add: pow2_powi power_int_increasing)

lemma pow2_nat: "pow2 (int n) = 2 ^ n"
  by (simp add: pow2_def)

lemma pow2_neg: "pow2 (- int n) = 1 / 2 ^ n"
  by (cases n) (simp_all add: pow2_def nat_add_distrib)


lemma ilog2_bounds:
  assumes "0 < a"
  shows "pow2 (ilog2 a) \<le> a" and "a < pow2 (ilog2 a + 1)"
proof -
  have "pow2 (ilog2 a) \<le> a \<and> a < pow2 (ilog2 a + 1)"
  proof (cases "1 \<le> a")
    case True
    define n where "n = \<lfloor>a\<rfloor>"
    define b where "b = bit_length n"
    have n1: "1 \<le> n" using True by (simp add: n_def)
    have bpos: "0 < b" using n1 by (simp add: b_def bit_length_pos)
    have up: "n < 2 ^ b" using n1 bit_length_upper [of n] by (simp add: b_def)
    have low: "2 ^ b \<le> 2 * n" using n1 bit_length_lower [of n] by (simp add: b_def)
    obtain b' where b': "b = Suc b'" using bpos by (cases b) auto
    have il: "ilog2 a = int b'" using True by (simp add: ilog2_def n_def [symmetric] b_def [symmetric] b')
    have "(2::int) ^ b' \<le> n" using low by (simp add: b')
    then have "of_int ((2::int) ^ b') \<le> (of_int n :: rat)" by (simp only: of_int_le_iff)
    then have l1: "(2::rat) ^ b' \<le> of_int n" by simp
    have l2: "of_int n \<le> a" by (simp add: n_def)
    have "n + 1 \<le> 2 ^ b" using up by simp
    then have "of_int (n + 1) \<le> (of_int ((2::int) ^ b) :: rat)" by (simp only: of_int_le_iff)
    then have u1: "of_int n + 1 \<le> (2::rat) ^ b" by simp
    have u2: "a < of_int n + 1" using floor_correct [of a] by (simp add: n_def)
    have "ilog2 a + 1 = int b" by (simp add: il b')
    then have "pow2 (ilog2 a + 1) = 2 ^ b" by (simp only: pow2_nat)
    moreover have "pow2 (ilog2 a) = 2 ^ b'" using pow2_nat [of b'] by (simp add: il)
    moreover have "(2::rat) ^ b' \<le> a" using l1 l2 by (rule order_trans)
    moreover have "a < (2::rat) ^ b" using u2 u1 by (rule less_le_trans)
    ultimately show ?thesis by simp
  next
    case False
    define c where "c = \<lceil>1 / a\<rceil>"
    define b where "b = bit_length (c - 1)"
    have inv: "1 < 1 / a" using False assms by simp
    have c2: "2 \<le> c" using inv by (simp add: c_def)
    have c1: "1 \<le> c - 1" using c2 by simp
    have bpos: "0 < b" using c1 by (simp add: b_def bit_length_pos)
    obtain b' where b': "b = Suc b'" using bpos by (cases b) auto
    have up: "c - 1 < 2 ^ b" using c1 bit_length_upper [of "c - 1"] by (simp add: b_def)
    have low: "2 ^ b \<le> 2 * (c - 1)" using c1 bit_length_lower [of "c - 1"] by (simp add: b_def)
    have il: "ilog2 a = - int b" using False by (simp add: ilog2_def c_def [symmetric] b_def [symmetric])
    have "c \<le> 2 ^ b" using up by simp
    then have "of_int c \<le> (of_int ((2::int) ^ b) :: rat)" by (simp only: of_int_le_iff)
    then have "(of_int c :: rat) \<le> 2 ^ b" by simp
    moreover have "1 / a \<le> of_int c" by (simp add: c_def)
    ultimately have "1 / a \<le> 2 ^ b" by linarith
    then have "1 \<le> 2 ^ b * a" using assms by (simp add: field_simps)
    then have lo: "1 / 2 ^ b \<le> a" by (simp add: field_simps)
    have "(2::int) ^ b' \<le> c - 1" using low by (simp add: b')
    then have "of_int ((2::int) ^ b') \<le> (of_int (c - 1) :: rat)" by (simp only: of_int_le_iff)
    then have "(2::rat) ^ b' \<le> of_int c - 1" by simp
    moreover have "of_int c - 1 < 1 / a" using ceiling_correct [of "1 / a"] by (simp add: c_def)
    ultimately have "(2::rat) ^ b' < 1 / a" by linarith
    then have "2 ^ b' * a < 1" using assms by (simp add: field_simps)
    then have hi: "a < 1 / 2 ^ b'" by (simp add: field_simps)
    have "ilog2 a + 1 = - int b'" by (simp add: il b')
    then have "pow2 (ilog2 a + 1) = 1 / 2 ^ b'" using pow2_neg [of b'] by simp
    moreover have "pow2 (ilog2 a) = 1 / 2 ^ b" using pow2_neg [of b] by (simp add: il)
    ultimately show ?thesis using lo hi by simp
  qed
  then show "pow2 (ilog2 a) \<le> a" and "a < pow2 (ilog2 a + 1)" by simp_all
qed

lemma round_half_even_ge: "of_int j \<le> x \<Longrightarrow> j \<le> round_half_even x"
proof -
  assume "of_int j \<le> x"
  then have "j \<le> \<lfloor>x\<rfloor>" by (simp add: le_floor_iff)
  then show ?thesis by (simp add: round_half_even_def Let_def)
qed

lemma round_half_even_le: "x \<le> of_int j \<Longrightarrow> round_half_even x \<le> j"
proof -
  assume h: "x \<le> of_int j"
  then have f: "\<lfloor>x\<rfloor> \<le> j" by (simp add: floor_le_iff)
  show ?thesis
  proof (cases "x = of_int \<lfloor>x\<rfloor>")
    case True
    then have "x - of_int \<lfloor>x\<rfloor> = 0" by simp
    then show ?thesis using f by (simp add: round_half_even_def Let_def)
  next
    case False
    then have "of_int \<lfloor>x\<rfloor> < x" using of_int_floor_le [of x] by linarith
    with h have "(of_int \<lfloor>x\<rfloor> :: rat) < of_int j" by linarith
    then have "\<lfloor>x\<rfloor> < j" by (simp only: of_int_less_iff)
    then show ?thesis by (simp add: round_half_even_def Let_def)
  qed
qed



lemma round_double_between:
  assumes q0: "0 \<le> q" and q53: "q < 2 ^ 53"
    and K: "of_int K \<le> q" and L: "q \<le> of_int L" and L53: "L \<le> 2 ^ 53"
  shows "\<exists>v. round_double q = Finite v \<and> of_int K \<le> v \<and> v \<le> of_int L"
proof (cases "q = 0")
  case True
  then show ?thesis using K L by (simp add: round_double_def)
next
  case False
  with q0 have qpos: "0 < q" by simp
  define e where "e = max (- 1074) (ilog2 q - 52)"
  have "pow2 (ilog2 q) < pow2 53" using ilog2_bounds(1) [OF qpos] q53 pow2_nat [of 53] by simp
  then have "ilog2 q < 53" using pow2_mono [of 53 "ilog2 q"] by (cases "ilog2 q < 53") auto
  then have e0: "e \<le> 0" by (simp add: e_def)
  define n where "n = nat (- e)"
  have en: "e = - int n" using e0 by (simp add: n_def)
  have pe: "pow2 e = 1 / 2 ^ n" using pow2_neg [of n] by (simp add: en)
  define m where "m = round_half_even (q * 2 ^ n)"
  have "of_int (K * 2 ^ n) \<le> q * 2 ^ n" using K by simp
  then have mK: "K * 2 ^ n \<le> m" unfolding m_def by (rule round_half_even_ge)
  have "q * 2 ^ n \<le> of_int (L * 2 ^ n)" using L by simp
  then have mL: "m \<le> L * 2 ^ n" unfolding m_def by (rule round_half_even_le)
  define v where "v = (of_int m :: rat) / 2 ^ n"
  have "(of_int (K * 2 ^ n) :: rat) \<le> of_int m" using mK by (simp only: of_int_le_iff)
  then have vK: "of_int K \<le> v" by (simp add: v_def field_simps)
  have "(of_int m :: rat) \<le> of_int (L * 2 ^ n)" using mL by (simp only: of_int_le_iff)
  then have vL: "v \<le> of_int L" by (simp add: v_def field_simps)
  have "(of_int L :: rat) \<le> of_int (2 ^ 53)" using L53 by (simp only: of_int_le_iff)
  then have "v \<le> 2 ^ 53" using vL by simp
  moreover have "(2::rat) ^ 53 < 2 ^ 1024" by simp
  ultimately have small: "\<not> 2 ^ 1024 \<le> v" by linarith
  have "round_double q = Finite v"
    using qpos small
    by (simp add: round_double_def Let_def e_def [symmetric] pe m_def [symmetric] v_def [symmetric])
  then show ?thesis using vK vL by simp
qed

lemma round_double_finite:
  assumes "\<bar>q\<bar> < 2 ^ 1023"
  shows "\<exists>v. round_double q = Finite v"
proof (cases "q = 0")
  case True
  then show ?thesis by (simp add: round_double_def)
next
  case False
  define a where "a = \<bar>q\<bar>"
  have apos: "0 < a" using False by (simp add: a_def)
  define e where "e = max (- 1074) (ilog2 a - 52)"
  define m where "m = round_half_even (a / pow2 e)"
  have "pow2 (ilog2 a) < pow2 1023" using ilog2_bounds(1) [OF apos] assms pow2_nat [of 1023] by (simp add: a_def)
  then have "ilog2 a < 1023" using pow2_mono [of 1023 "ilog2 a"] by (cases "ilog2 a < 1023") auto
  then have e970: "e + 53 \<le> 1023" by (simp add: e_def)
  have "ilog2 a + 1 \<le> e + 53" by (simp add: e_def)
  then have "pow2 (ilog2 a + 1) \<le> pow2 (e + 53)" by (rule pow2_mono)
  then have "a < pow2 (e + 53)" using ilog2_bounds(2) [OF apos] by linarith
  then have "a < pow2 e * 2 ^ 53" using pow2_nat [of 53] by (simp add: pow2_add)
  then have "a / pow2 e < 2 ^ 53" using pow2_pos [of e] by (simp add: field_simps)
  then have "a / pow2 e \<le> of_int (2 ^ 53)" by simp
  then have "m \<le> 2 ^ 53" unfolding m_def by (rule round_half_even_le)
  then have "(of_int m :: rat) \<le> of_int (2 ^ 53)" by (simp only: of_int_le_iff)
  then have "of_int m * pow2 e \<le> 2 ^ 53 * pow2 e" using pow2_pos [of e] by simp
  also have "\<dots> = pow2 (e + 53)" using pow2_nat [of 53] by (simp add: pow2_add)
  also have "\<dots> \<le> pow2 1023" using e970 by (rule pow2_mono)
  also have "\<dots> < 2 ^ 1024" using pow2_nat [of 1023] by simp
  finally have "\<not> 2 ^ 1024 \<le> of_int m * pow2 e" by simp
  then show ?thesis
    by (simp add: round_double_def Let_def a_def [symmetric] e_def [symmetric] m_def [symmetric])
qed

lemma float_of_nat_exact: "n < 2 ^ 53 \<Longrightarrow> float_of_nat n = Finite (of_nat n)"
proof -
  assume "n < 2 ^ 53"
  then have "(of_nat n :: rat) < of_nat (2 ^ 53)" by (simp only: of_nat_less_iff)
  then have "(of_nat n :: rat) < 2 ^ 53" by simp
  moreover have "(of_int (int n) :: rat) \<le> of_nat n" "(of_nat n :: rat) \<le> of_int (int n)" by simp_all
  moreover have "int n \<le> 2 ^ 53" using \<open>n < 2 ^ 53\<close> by simp
  ultimately obtain v where "round_double (of_nat n) = Finite v" "of_int (int n) \<le> v" "v \<le> of_int (int n)"
    using round_double_between [of "of_nat n" "int n" "int n"] by auto
  then show ?thesis by (simp add: float_of_nat_def)
qed

section \<open>Split determinism\<close>

text \<open>
  C1 (split determinism).  Two invocations of the preparation stage that are given the same
  formatted collection, the same train ratio and the same seed return the same outcome of
  the split: the same train sequence and the same validation sequence, in the same order
  (or the same error), and leave the generator in the same state.  The invocations may
  start from different generator states \<open>g1\<close> and \<open>g2\<close> (the interpreter seeds the global
  generator from the operating system when it starts): \<^verbatim>\<open>random.seed(args.seed)\<close> overwrites
  that state before the shuffle draws from it.
\<close>

theorem split_determinism:
  "seeded_split rb sd s train_ratio formatted g1 = seeded_split rb sd s train_ratio formatted g2"
  by (simp add: seeded_split_def random_seed_def)

section \<open>The collection stage\<close>

lemma blog_loop_eq:
  "blog_loop str rows exs =
     exs @ map (blog_example str)
             (filter (\<lambda>r. truthy_text (raw_transcription r) \<and> truthy_text (final_content r)) rows)"
  by (induction rows arbitrary: exs) simp_all

lemma pairs_loop_eq: "pairs_loop rows exs = exs @ map pair_example rows"
  by (induction rows arbitrary: exs) simp_all

lemma collect_main_examples:
  "examples (collect_main str st tw t) =
     filter (\<lambda>ex. py_ge (quality_score ex) t)
       (map (blog_example str)
          (filter (\<lambda>r. truthy_text (raw_transcription r) \<and> truthy_text (final_content r))
             (blog_posts_query st))
        @ map pair_example (training_pairs_query st))"
  by (simp add: collect_main_def Let_def collect_from_blog_posts_def collect_from_training_pairs_def
      collect_from_twitch_def filter_by_quality_def blog_loop_eq pairs_loop_eq)

text \<open>
  C5 (quality filter).  \<^verbatim>\<open>filter_by_quality\<close> keeps exactly the examples whose score is
  \<^verbatim>\<open>>=\<close> the threshold: the same elements with the same multiplicities, in their original
  relative order (the result is a subsequence of the collection).  It is total: when no
  example reaches the threshold, as may happen for a threshold above 1, the result is the
  empty collection.
\<close>

theorem filter_by_quality_correct:
  "set (examples (filter_by_quality t c)) = {ex \<in> set (examples c). py_ge (quality_score ex) t}
   \<and> mset (examples (filter_by_quality t c)) = filter_mset (\<lambda>ex. py_ge (quality_score ex) t) (mset (examples c))
   \<and> subseq (examples (filter_by_quality t c)) (examples c)
   \<and> ((\<forall>ex \<in> set (examples c). \<not> py_ge (quality_score ex) t) \<longrightarrow> examples (filter_by_quality t c) = [])"
  by (simp add: filter_by_quality_def)

theorem filter_by_quality_correct_witness:
  "examples (filter_by_quality (Finite 2)
     \<lparr>examples = [\<lparr>input_text = Some ''a'', output_text = Some ''b'', source_type = Some ''blog'',
                    quality_score = Finite 1, metadata = JNull\<rparr>,
                   \<lparr>input_text = Some ''c'', output_text = Some ''d'', source_type = Some ''blog'',
                    quality_score = Finite (1 / 2), metadata = JNull\<rparr>]\<rparr>) = []"
  using filter_by_quality_correct [of "Finite 2"
     "\<lparr>examples = [\<lparr>input_text = Some ''a'', output_text = Some ''b'', source_type = Some ''blog'',
                    quality_score = Finite 1, metadata = JNull\<rparr>,
                   \<lparr>input_text = Some ''c'', output_text = Some ''d'', source_type = Some ''blog'',
                    quality_score = Finite (1 / 2), metadata = JNull\<rparr>]\<rparr>"]
  by simp

section \<open>Falsy scores of labeled pairs\<close>

text \<open>
  C10 (zero-score coercion).  A \<^verbatim>\<open>training_pairs\<close> row that the query returns and whose stored
  \<^verbatim>\<open>quality_score\<close> is \<^verbatim>\<open>NULL\<close> or zero yields an example with score 1.0
  (\<^verbatim>\<open>quality_score or 1.0\<close>), and that example is in the collection the run saves for every
  threshold \<open>t\<close> with \<^verbatim>\<open>1.0 >= t\<close>.
\<close>

theorem zero_score_coerced:
  assumes "r \<in> set (training_pairs st)"
    and "row_output_text r = Some out" and "out \<noteq> []"
    and "row_quality_score r = None \<or> row_quality_score r = Some (Finite 0)"
    and "py_ge (Finite 1) t"
  shows "quality_score (pair_example r) = Finite 1
         \<and> pair_example r \<in> set (examples (collect_main str st tw t))"
proof -
  have q: "quality_score (pair_example r) = Finite 1"
    using assms(4) by (auto simp add: pair_example_def score_or_default_def)
  have "r \<in> set (training_pairs_query st)"
    using assms(1,2,3) by (simp add: training_pairs_query_def)
  then have "pair_example r \<in> set (map pair_example (training_pairs_query st))" by simp
  then show ?thesis using q assms(5) by (simp add: collect_main_examples)
qed

theorem zero_score_coerced_witness:
  "quality_score (pair_example
       \<lparr>row_input_text = Some ''raw'', row_output_text = Some ''post'', row_source_type = Some ''manual'',
        row_quality_score = Some (Finite 0), row_metadata = JNull\<rparr>) = Finite 1
   \<and> pair_example
       \<lparr>row_input_text = Some ''raw'', row_output_text = Some ''post'', row_source_type = Some ''manual'',
        row_quality_score = Some (Finite 0), row_metadata = JNull\<rparr>
     \<in> set (examples (collect_main (\<lambda>i. i)
         \<lparr>blog_posts = [],
          training_pairs =
            [\<lparr>row_input_text = Some ''raw'', row_output_text = Some ''post'', row_source_type = Some ''manual'',
              row_quality_score = Some (Finite 0), row_metadata = JNull\<rparr>]\<rparr>
         False (Finite 1)))"
  by (rule zero_score_coerced [where out = "''post''"]) simp_all

section \<open>Text fields of collected examples\<close>

lemma blog_examples_have_text:
  "ex \<in> set (examples (collect_from_blog_posts str st \<lparr>examples = []\<rparr>))
   \<Longrightarrow> truthy_text (input_text ex) \<and> truthy_text (output_text ex)"
  by (auto simp add: collect_from_blog_posts_def blog_loop_eq blog_example_def)

lemma pair_examples_have_output_text:
  "ex \<in> set (examples (collect_from_training_pairs st \<lparr>examples = []\<rparr>))
   \<Longrightarrow> truthy_text (output_text ex)"
  by (auto simp add: collect_from_training_pairs_def pairs_loop_eq pair_example_def
      training_pairs_query_def truthy_text_def)

text \<open>
  C2 (non-null text fields).  The published-content source keeps the invariant, and
  \<^verbatim>\<open>output_text\<close> of a labeled pair is never missing or empty (the two lemmas above).  The
  query on \<^verbatim>\<open>training_pairs\<close> does not test \<^verbatim>\<open>input_text\<close>, and the loop appends every
  returned row: a row whose \<^verbatim>\<open>input_text\<close> is \<^verbatim>\<open>NULL\<close>, and one whose \<^verbatim>\<open>input_text\<close> is the
  empty string, each yield an example, which the run saves.
\<close>

theorem training_pairs_missing_input_text:
  "examples (collect_main (\<lambda>i. i)
       \<lparr>blog_posts = [],
        training_pairs =
          [\<lparr>row_input_text = None, row_output_text = Some ''post'', row_source_type = Some ''manual'',
            row_quality_score = Some (Finite (4 / 5)), row_metadata = JNull\<rparr>,
           \<lparr>row_input_text = Some [], row_output_text = Some ''post'', row_source_type = Some ''manual'',
            row_quality_score = Some (Finite (4 / 5)), row_metadata = JNull\<rparr>]\<rparr>
       False (Finite (1 / 2)))
   = [\<lparr>input_text = None, output_text = Some ''post'', source_type = Some ''manual'',
       quality_score = Finite (4 / 5), metadata = JObj []\<rparr>,
      \<lparr>input_text = Some [], output_text = Some ''post'', source_type = Some ''manual'',
       quality_score = Finite (4 / 5), metadata = JObj []\<rparr>]"
  by (simp add: collect_main_examples blog_posts_query_def training_pairs_query_def pair_example_def
      score_or_default_def metadata_or_empty_def)

section \<open>The formatter\<close>

lemma format_as_instruction_ok:
  "has_text_fields ex \<Longrightarrow> format_as_instruction ex = Inr (formatted_of ex)"
  by (auto simp add: has_text_fields_def format_as_instruction_def subscript_def formatted_of_def get_default_def)

lemma format_all_ok:
  "\<forall>ex\<in>set exs. has_text_fields ex \<Longrightarrow> format_all exs = Inr (map formatted_of exs)"
  by (induction exs) (simp_all add: format_as_instruction_ok)

lemma source_of_formatted:
  "fe_source (formatted_of ex) =
     (case dict_get ex ''source_type'' of None \<Rightarrow> JStr ''unknown'' | Some v \<Rightarrow> v)"
  by (simp add: formatted_of_def get_default_def)

lemma formatted_of_fields:
  "has_text_fields ex \<Longrightarrow>
     format_as_instruction ex = Inr (formatted_of ex)
     \<and> dict_get ex ''input_text'' = Some (fe_input (formatted_of ex))
     \<and> dict_get ex ''output_text'' = Some (fe_output (formatted_of ex))"
  by (auto simp add: format_as_instruction_ok formatted_of_def has_text_fields_def get_default_def)

text \<open>
  C6 (the \<^verbatim>\<open>unknown\<close> default).  On every list of records that carry both text fields, each
  formatted record's \<^verbatim>\<open>source\<close> is the value bound to \<^verbatim>\<open>source_type\<close> in its own record, and the
  string \<^verbatim>\<open>unknown\<close> when that record has no \<^verbatim>\<open>source_type\<close> key.  So \<^verbatim>\<open>source\<close> is
  \<^verbatim>\<open>unknown\<close> exactly when the key is missing or is itself bound to \<^verbatim>\<open>unknown\<close>.  A
  \<^verbatim>\<open>source_type\<close> that is present is passed on as it is, the empty string included
  (\<^verbatim>\<open>example.get('source_type', 'unknown')\<close> falls back on a missing key only).
\<close>

theorem source_default:
  assumes "\<forall>ex\<in>set exs. has_text_fields ex"
  shows "\<exists>fs. format_all exs = Inr fs \<and> length fs = length exs
           \<and> (\<forall>n<length exs.
                 fe_source (fs ! n) =
                   (case dict_get (exs ! n) ''source_type'' of None \<Rightarrow> JStr ''unknown'' | Some v \<Rightarrow> v)
                 \<and> (fe_source (fs ! n) = JStr ''unknown'' \<longleftrightarrow>
                      dict_get (exs ! n) ''source_type'' = None
                      \<or> dict_get (exs ! n) ''source_type'' = Some (JStr ''unknown'')))"
proof -
  have "format_all exs = Inr (map formatted_of exs)" using assms by (rule format_all_ok)
  then show ?thesis
    by (intro exI [of _ "map formatted_of exs"])
       (auto simp add: source_of_formatted split: option.splits)
qed

theorem source_default_witness:
  "has_text_fields (JObj [(''input_text'', JStr ''raw''), (''output_text'', JStr ''post''), (''source_type'', JStr ''blog'')])
   \<and> has_text_fields (JObj [(''input_text'', JStr ''raw''), (''output_text'', JStr ''post'')])
   \<and> map fe_source (projr (format_all
        [JObj [(''input_text'', JStr ''raw''), (''output_text'', JStr ''post''), (''source_type'', JStr ''blog'')],
         JObj [(''input_text'', JStr ''raw''), (''output_text'', JStr ''post'')]]))
      = [JStr ''blog'', JStr ''unknown'']"
proof -
  let ?a = "JObj [(''input_text'', JStr ''raw''), (''output_text'', JStr ''post''), (''source_type'', JStr ''blog'')]"
  let ?b = "JObj [(''input_text'', JStr ''raw''), (''output_text'', JStr ''post'')]"
  have h: "\<forall>ex\<in>set [?a, ?b]. has_text_fields ex"
    by (simp add: has_text_fields_def is_dict_def dict_get_def)
  from source_default [OF h] obtain fs where fs: "format_all [?a, ?b] = Inr fs" "length fs = 2"
    and src: "\<forall>n<2. fe_source (fs ! n) =
        (case dict_get ([?a, ?b] ! n) ''source_type'' of None \<Rightarrow> JStr ''unknown'' | Some v \<Rightarrow> v)"
    by auto
  from src have "fe_source (fs ! 0) = JStr ''blog''" "fe_source (fs ! 1) = JStr ''unknown''"
    by (simp_all add: dict_get_def)
  moreover from fs(2) obtain x y where "fs = [x, y]"
    by (cases fs; cases "tl fs") auto
  ultimately have "map fe_source fs = [JStr ''blog'', JStr ''unknown'']" by simp
  then show ?thesis using h fs(1) by simp
qed

text \<open>
  The claim as stated fails on a record whose \<^verbatim>\<open>source_type\<close> is the empty string: its
  \<^verbatim>\<open>source\<close> is the empty string, not \<^verbatim>\<open>unknown\<close>.
\<close>

theorem source_default_counterexample:
  "format_as_instruction
     (JObj [(''input_text'', JStr ''raw''), (''output_text'', JStr ''post''), (''source_type'', JStr [])])
   = Inr \<lparr>fe_instruction = instruction_template, fe_input = JStr ''raw'', fe_output = JStr ''post'',
          fe_source = JStr []\<rparr>
   \<and> JStr [] \<noteq> JStr ''unknown''"
  by (simp add: format_as_instruction_def subscript_def is_dict_def dict_get_def get_default_def)

text \<open>
  C7 (formatting purity).  On every list of records that carry both text fields the formatter
  returns one formatted record per input record, in the same order: the record at position
  \<open>n\<close> is \<^verbatim>\<open>format_as_instruction\<close> of the input at position \<open>n\<close>, and its \<^verbatim>\<open>input\<close> and
  \<^verbatim>\<open>output\<close> are the very values bound to \<^verbatim>\<open>input_text\<close> and \<^verbatim>\<open>output_text\<close>.
\<close>

theorem formatting_purity:
  assumes "\<forall>ex\<in>set exs. has_text_fields ex"
  shows "\<exists>fs. format_all exs = Inr fs \<and> length fs = length exs
           \<and> (\<forall>n<length exs.
                 format_as_instruction (exs ! n) = Inr (fs ! n)
                 \<and> dict_get (exs ! n) ''input_text'' = Some (fe_input (fs ! n))
                 \<and> dict_get (exs ! n) ''output_text'' = Some (fe_output (fs ! n)))"
proof -
  have "format_all exs = Inr (map formatted_of exs)" using assms by (rule format_all_ok)
  moreover have "\<forall>n<length exs. has_text_fields (exs ! n)" using assms by simp
  ultimately show ?thesis
    by (intro exI [of _ "map formatted_of exs"]) (simp add: formatted_of_fields)
qed

theorem formatting_purity_witness:
  "has_text_fields (JObj [(''input_text'', JStr ''raw''), (''output_text'', JStr ''post''), (''source_type'', JStr ''blog'')])
   \<and> format_all [JObj [(''input_text'', JStr ''raw''), (''output_text'', JStr ''post''), (''source_type'', JStr ''blog'')]]
     = Inr [\<lparr>fe_instruction = instruction_template, fe_input = JStr ''raw'', fe_output = JStr ''post'',
             fe_source = JStr ''blog''\<rparr>]"
proof -
  let ?a = "JObj [(''input_text'', JStr ''raw''), (''output_text'', JStr ''post''), (''source_type'', JStr ''blog'')]"
  have h: "\<forall>ex\<in>set [?a]. has_text_fields ex"
    by (simp add: has_text_fields_def is_dict_def dict_get_def)
  from formatting_purity [OF h] obtain fs where fs: "format_all [?a] = Inr fs" "length fs = 1"
    and at: "format_as_instruction ?a = Inr (fs ! 0)"
    by auto
  from fs(2) obtain x where x: "fs = [x]" by (cases fs) auto
  from at have "x = \<lparr>fe_instruction = instruction_template, fe_input = JStr ''raw'', fe_output = JStr ''post'',
             fe_source = JStr ''blog''\<rparr>"
    by (simp add: x format_as_instruction_def subscript_def is_dict_def dict_get_def get_default_def)
  then show ?thesis using h fs(1) x by simp
qed

section \<open>The intermediate file\<close>

lemma read_loop_eq:
  "read_loop loads ls acc =
     (if \<exists>l\<in>set ls. loads l = None then Inl JSONDecodeError
      else Inr (acc @ map (\<lambda>l. the (loads l)) ls))"
  by (induction ls arbitrary: acc) (auto split: option.splits)

text \<open>
  C9 (all-or-nothing read).  If \<^verbatim>\<open>json.loads\<close> rejects any line of the input file, reading
  ends in the error and no examples are returned; if it accepts every line, reading returns
  one record per line, the record of line \<open>n\<close> at position \<open>n\<close>.
\<close>

theorem all_or_nothing_read:
  "((\<exists>l\<in>set (file_lines content). loads l = None)
      \<longrightarrow> load_examples loads content = Inl JSONDecodeError)
   \<and> ((\<forall>l\<in>set (file_lines content). loads l \<noteq> None)
      \<longrightarrow> (\<exists>rs. load_examples loads content = Inr rs
             \<and> length rs = length (file_lines content)
             \<and> (\<forall>n<length rs. loads (file_lines content ! n) = Some (rs ! n))))"
  by (auto simp add: load_examples_def read_loop_eq)

theorem all_or_nothing_read_witness:
  "load_examples (\<lambda>l. if l = ''null'' @ [LF] then Some JNull else None)
      (''null'' @ [LF] @ ''{oops'' @ [LF]) = Inl JSONDecodeError
   \<and> load_examples (\<lambda>l. if l = ''null'' @ [LF] then Some JNull else None)
      (''null'' @ [LF] @ ''null'' @ [LF]) = Inr [JNull, JNull]"
proof -
  let ?loads = "\<lambda>l. if l = ''null'' @ [LF] then Some JNull else None"
  let ?bad = "''null'' @ [LF] @ ''{oops'' @ [LF]"
  let ?good = "''null'' @ [LF] @ ''null'' @ [LF]"
  have lb: "file_lines ?bad = [''null'' @ [LF], ''{oops'' @ [LF]]"
    by (simp add: file_lines_def LF_def CR_def)
  have lg: "file_lines ?good = [''null'' @ [LF], ''null'' @ [LF]]"
    by (simp add: file_lines_def LF_def CR_def)
  have "\<exists>l\<in>set (file_lines ?bad). ?loads l = None" unfolding lb by simp
  with all_or_nothing_read [of ?bad ?loads] have bad: "load_examples ?loads ?bad = Inl JSONDecodeError"
    by blast
  have "\<forall>l\<in>set (file_lines ?good). ?loads l \<noteq> None" unfolding lg by simp
  with all_or_nothing_read [of ?good ?loads] obtain rs where rs: "load_examples ?loads ?good = Inr rs"
    "length rs = length (file_lines ?good)" "\<forall>n<length rs. ?loads (file_lines ?good ! n) = Some (rs ! n)"
    by blast
  from rs(2) obtain x y where xy: "rs = [x, y]" unfolding lg by (cases rs; cases "tl rs") auto
  from rs(3) have "x = JNull" "y = JNull" unfolding lg xy by (auto simp add: nth_Cons' split: if_splits)
  then show ?thesis using bad rs(1) xy by simp
qed





section \<open>The shuffle and the slices\<close>

lemma length_swap: "length (swap i j x) = length x"
  by (simp add: swap_def)



lemma shuffle_loop_length: "length (fst (shuffle_loop rb k x g)) = length x"
  by (induction k arbitrary: x g) (simp_all add: length_swap split: prod.splits)



lemma shuffle_length: "length (fst (shuffle rb x g)) = length x"
  by (simp add: shuffle_def shuffle_loop_length)




lemma slice_index_le: "slice_index n k \<le> n"
  by (auto simp add: slice_index_def max_def)

lemma slice_index_nat: "0 \<le> k \<Longrightarrow> k \<le> int n \<Longrightarrow> slice_index n k = nat k"
  by (auto simp add: slice_index_def)

lemma split_dataset_result:
  assumes "split_index (length x) r = Inr k"
  shows "split_dataset rb x r g =
           (Inr (take (slice_index (length x) k) (fst (shuffle rb x g)),
                 drop (slice_index (length x) k) (fst (shuffle rb x g))),
            snd (shuffle rb x g))"
proof -
  obtain s g' where sg: "shuffle rb x g = (s, g')" by (cases "shuffle rb x g")
  have len: "length s = length x" using shuffle_length [of rb x g] by (simp add: sg)
  show ?thesis using assms by (simp add: split_dataset_def sg len slice_to_def slice_from_def)
qed


section \<open>Evaluating binary64 arithmetic on numerals\<close>

lemma bit_length_numeral: "bit_length (numeral k) = Suc (bit_length (numeral k div 2))"
  by (simp add: bit_length.simps [of "numeral k"])

lemma bit_length_0: "bit_length 0 = 0"
  by (simp add: bit_length.simps)

lemma bit_length_1: "bit_length 1 = Suc 0"
  by (simp add: bit_length.simps [of 1] bit_length_0)

lemma floor_numeral_div: "\<lfloor>(numeral a :: rat) / numeral b\<rfloor> = numeral a div numeral b"
  using floor_divide_of_int_eq [of "numeral a" "numeral b", where ?'a = rat] by simp

lemma ceiling_numeral_div: "\<lceil>(numeral a :: rat) / numeral b\<rceil> = - (- numeral a div numeral b)"
  using floor_divide_of_int_eq [of "- numeral a" "numeral b", where ?'a = rat]
  by (simp add: ceiling_def)

lemmas float_eval = split_index_def float_of_nat_def round_double_def ilog2_def pow2_def
  round_half_even_def trunc_def Let_def is_double_def
  bit_length_numeral bit_length_0 bit_length_1 floor_numeral_div ceiling_numeral_div




section \<open>The split index\<close>

lemma split_index_zero: "split_index 0 (Finite r) = Inr 0"
  by (simp add: split_index_def float_of_nat_def round_double_def trunc_def)

lemma split_index_value:
  assumes "n < 2 ^ 53" and "round_double (of_nat n * r) = Finite v"
  shows "split_index n (Finite r) = Inr (trunc v)"
  using assms by (simp add: split_index_def float_of_nat_exact)

lemma split_index_finite:
  assumes "n < 2 ^ 53" and "\<bar>of_nat n * r\<bar> < 2 ^ 1023"
  shows "\<exists>k. split_index n (Finite r) = Inr k"
proof -
  obtain v where "round_double (of_nat n * r) = Finite v"
    using round_double_finite [OF assms(2)] by blast
  then show ?thesis using split_index_value [OF assms(1)] by blast
qed



lemma split_index_unit:
  assumes n: "n < 2 ^ 53" and r0: "0 \<le> r" and r1: "r \<le> 1"
  shows "\<exists>k. split_index n (Finite r) = Inr k
           \<and> \<lfloor>of_nat n * r\<rfloor> \<le> k \<and> k \<le> \<lceil>of_nat n * r\<rceil> \<and> 0 \<le> k \<and> k \<le> int n
           \<and> (k = \<lfloor>of_nat n * r\<rfloor> + 1 \<longleftrightarrow>
                round_double (of_nat n * r) = Finite (of_int (\<lfloor>of_nat n * r\<rfloor> + 1)))"
proof -
  define q where "q = (of_nat n :: rat) * r"
  have q0: "0 \<le> q" using r0 by (simp add: q_def)
  have "q \<le> of_nat n * 1" unfolding q_def using r1 by (intro mult_left_mono) simp_all
  then have qn: "q \<le> of_nat n" by simp
  have "(of_nat n :: rat) < of_nat (2 ^ 53)" using n by (simp only: of_nat_less_iff)
  then have n53: "(of_nat n :: rat) < 2 ^ 53" by simp
  then have q53: "q < 2 ^ 53" using qn by linarith
  have cn: "\<lceil>q\<rceil> \<le> int n" using qn by (simp add: ceiling_le_iff)
  have "int n \<le> 2 ^ 53" using n by simp
  then have c53: "\<lceil>q\<rceil> \<le> 2 ^ 53" using cn by linarith
  obtain v where v: "round_double q = Finite v" and vlo: "of_int \<lfloor>q\<rfloor> \<le> v" and vhi: "v \<le> of_int \<lceil>q\<rceil>"
    using round_double_between [OF q0 q53, of "\<lfloor>q\<rfloor>" "\<lceil>q\<rceil>"] c53 by auto
  have f0: "0 \<le> \<lfloor>q\<rfloor>" using q0 by simp
  then have "(0::rat) \<le> of_int \<lfloor>q\<rfloor>" by simp
  then have v0: "0 \<le> v" using vlo by linarith
  have tr: "trunc v = \<lfloor>v\<rfloor>" using v0 by (simp add: trunc_def)
  have k: "split_index n (Finite r) = Inr \<lfloor>v\<rfloor>"
    using split_index_value [OF n, of r v] v by (simp add: q_def tr)
  have lo: "\<lfloor>q\<rfloor> \<le> \<lfloor>v\<rfloor>" using vlo by (simp add: le_floor_iff)
  have hi: "\<lfloor>v\<rfloor> \<le> \<lceil>q\<rceil>" using vhi by (simp add: floor_le_iff)
  have c1: "\<lceil>q\<rceil> \<le> \<lfloor>q\<rfloor> + 1" by linarith
  have iff: "\<lfloor>v\<rfloor> = \<lfloor>q\<rfloor> + 1 \<longleftrightarrow> v = of_int (\<lfloor>q\<rfloor> + 1)"
  proof
    assume a: "\<lfloor>v\<rfloor> = \<lfloor>q\<rfloor> + 1"
    have "of_int \<lfloor>v\<rfloor> \<le> v" by (rule of_int_floor_le)
    moreover have "(of_int \<lceil>q\<rceil> :: rat) \<le> of_int (\<lfloor>q\<rfloor> + 1)" using c1 by (simp only: of_int_le_iff)
    ultimately show "v = of_int (\<lfloor>q\<rfloor> + 1)" using vhi a by simp
  next
    assume "v = of_int (\<lfloor>q\<rfloor> + 1)"
    then show "\<lfloor>v\<rfloor> = \<lfloor>q\<rfloor> + 1" by simp
  qed
  have "0 \<le> \<lfloor>v\<rfloor>" using f0 lo by linarith
  moreover have "\<lfloor>v\<rfloor> \<le> int n" using hi cn by linarith
  ultimately show ?thesis using k lo hi iff v unfolding q_def [symmetric] by auto
qed


lemma split_dataset_sizes:
  assumes "split_index (length xs) rho = Inr k" and "0 \<le> k" and "k \<le> int (length xs)"
  shows "\<exists>train val g'. split_dataset rb xs rho g = (Inr (train, val), g')
           \<and> length train = nat k \<and> length val = length xs - nat k"
proof -
  have "slice_index (length xs) k = nat k" using assms(2,3) by (rule slice_index_nat)
  then show ?thesis using split_dataset_result [OF assms(1), of rb g] assms(2,3)
    by (simp add: shuffle_length)
qed





section \<open>Split completeness\<close>


lemma finite_product:
  assumes "n < 2 ^ 53" and "\<bar>of_nat n * r\<bar> < 2 ^ 1023"
  shows "\<exists>v. fmul (float_of_nat n) (Finite r) = Finite v"
  using round_double_finite [OF assms(2)] by (simp add: float_of_nat_exact [OF assms(1)])



section \<open>Concrete splits\<close>

lemma split_dataset_train_length:
  assumes "split_index (length xs) rho = Inr k" and "0 \<le> k" and "k \<le> int (length xs)"
  shows "map_sum id (length \<circ> fst) (fst (split_dataset rb xs rho g)) = Inr (nat k)"
proof -
  obtain train val g' where "split_dataset rb xs rho g = (Inr (train, val), g')" "length train = nat k"
    using split_dataset_sizes [OF assms, of rb g] by blast
  then show ?thesis by simp
qed

lemma double_9_10: "round_double (9 / 10) = Finite (8106479329266893 / 9007199254740992)"
  by (simp add: float_eval)

lemma double_7_10: "round_double (7 / 10) = Finite (3152519739159347 / 4503599627370496)"
  by (simp add: float_eval)

lemma double_29_100: "round_double (29 / 100) = Finite (5224175567749775 / 18014398509481984)"
  by (simp add: float_eval)

lemma split_index_10_of_9_10: "split_index 10 (round_double (9 / 10)) = Inr 9"
  unfolding double_9_10 by (simp add: float_eval)

lemma split_index_10_of_7_10: "split_index 10 (Finite (3152519739159347 / 4503599627370496)) = Inr 7"
  by (simp add: float_eval)

lemma split_index_100_of_29_100: "split_index 100 (round_double (29 / 100)) = Inr 28"
  unfolding double_29_100 by (simp add: float_eval)






section \<open>Split sizes\<close>

text \<open>
  C4 (split sizes).  For a collection of \<open>N < 2 ^ 53\<close> examples and a train ratio \<open>r\<close> with
  \<open>0 < r < 1\<close>, \<^verbatim>\<open>split_dataset\<close> returns, and the train sequence has
  \<^verbatim>\<open>int(N * r)\<close> elements, the product being rounded to binary64 before it is truncated:
  that is \<open>\<lfloor>N r\<rfloor>\<close> or \<open>\<lfloor>N r\<rfloor> + 1\<close>, the latter exactly when the product rounds up to
  that integer; the validation sequence has the other \<open>N - |train|\<close> elements.  With ten
  examples and the float that \<^verbatim>\<open>0.9\<close> denotes, the sizes are 9 and 1.  An empty collection
  gives two empty sequences for every finite ratio, the ratio 1.0 an empty validation
  sequence and the ratio 0.0 an empty train sequence, none raising.
\<close>

theorem split_sizes:
  assumes "length xs < 2 ^ 53"
  shows "(0 < r \<and> r < 1 \<longrightarrow>
            (\<exists>train val g'. split_dataset rb xs (Finite r) g = (Inr (train, val), g')
               \<and> (int (length train) = \<lfloor>of_nat (length xs) * r\<rfloor>
                    \<or> int (length train) = \<lfloor>of_nat (length xs) * r\<rfloor> + 1)
               \<and> (int (length train) = \<lfloor>of_nat (length xs) * r\<rfloor> + 1 \<longleftrightarrow>
                    round_double (of_nat (length xs) * r) = Finite (of_int (\<lfloor>of_nat (length xs) * r\<rfloor> + 1)))
               \<and> length val = length xs - length train))
         \<and> (length xs = 10 \<longrightarrow>
              (\<exists>train val g'. split_dataset rb xs (round_double (9 / 10)) g = (Inr (train, val), g')
                 \<and> length train = 9 \<and> length val = 1))
         \<and> (length xs = 0 \<longrightarrow> split_dataset rb xs (Finite r) g = (Inr ([], []), g))
         \<and> (\<exists>train g'. split_dataset rb xs (Finite 1) g = (Inr (train, []), g') \<and> length train = length xs)
         \<and> (\<exists>val g'. split_dataset rb xs (Finite 0) g = (Inr ([], val), g') \<and> length val = length xs)"
proof (intro conjI impI)
  assume r: "0 < r \<and> r < 1"
  define q where "q = (of_nat (length xs) :: rat) * r"
  obtain k where k: "split_index (length xs) (Finite r) = Inr k"
    and lo: "\<lfloor>q\<rfloor> \<le> k" and hi: "k \<le> \<lceil>q\<rceil>" and k0: "0 \<le> k" and kn: "k \<le> int (length xs)"
    and iff: "k = \<lfloor>q\<rfloor> + 1 \<longleftrightarrow> round_double q = Finite (of_int (\<lfloor>q\<rfloor> + 1))"
    using split_index_unit [OF assms, of r] r unfolding q_def by auto
  obtain train val g' where res: "split_dataset rb xs (Finite r) g = (Inr (train, val), g')"
    and lt: "length train = nat k" and lv: "length val = length xs - nat k"
    using split_dataset_sizes [OF k k0 kn, of rb g] by blast
  have c1: "\<lceil>q\<rceil> \<le> \<lfloor>q\<rfloor> + 1" by linarith
  have ik: "int (length train) = k" using lt k0 by simp
  have "int (length train) = \<lfloor>q\<rfloor> \<or> int (length train) = \<lfloor>q\<rfloor> + 1" using ik lo hi c1 by linarith
  moreover have "int (length train) = \<lfloor>q\<rfloor> + 1 \<longleftrightarrow> round_double q = Finite (of_int (\<lfloor>q\<rfloor> + 1))"
    using iff by (simp only: ik)
  moreover have "length val = length xs - length train" using lv lt by simp
  ultimately show "\<exists>train val g'. split_dataset rb xs (Finite r) g = (Inr (train, val), g')
               \<and> (int (length train) = \<lfloor>of_nat (length xs) * r\<rfloor>
                    \<or> int (length train) = \<lfloor>of_nat (length xs) * r\<rfloor> + 1)
               \<and> (int (length train) = \<lfloor>of_nat (length xs) * r\<rfloor> + 1 \<longleftrightarrow>
                    round_double (of_nat (length xs) * r) = Finite (of_int (\<lfloor>of_nat (length xs) * r\<rfloor> + 1)))
               \<and> length val = length xs - length train"
    using res unfolding q_def by blast
next
  assume ten: "length xs = 10"
  have "split_index (length xs) (round_double (9 / 10)) = Inr 9"
    by (simp only: ten split_index_10_of_9_10)
  then show "\<exists>train val g'. split_dataset rb xs (round_double (9 / 10)) g = (Inr (train, val), g')
                 \<and> length train = 9 \<and> length val = 1"
    using split_dataset_sizes [of xs "round_double (9 / 10)" 9 rb g] ten by simp
next
  assume "length xs = 0"
  then show "split_dataset rb xs (Finite r) g = (Inr ([], []), g)"
    by (simp add: split_dataset_def shuffle_def split_index_zero slice_to_def slice_from_def)
next
  obtain k where k: "split_index (length xs) (Finite 1) = Inr k"
    and lo: "\<lfloor>of_nat (length xs) * (1::rat)\<rfloor> \<le> k" and kn: "k \<le> int (length xs)" and k0: "0 \<le> k"
    using split_index_unit [OF assms, of 1] by auto
  have "k = int (length xs)" using lo kn by simp
  then obtain train val g' where res: "split_dataset rb xs (Finite 1) g = (Inr (train, val), g')"
    and lt: "length train = length xs" and lv: "length val = 0"
    using split_dataset_sizes [OF k k0 kn, of rb g] by auto
  then show "\<exists>train g'. split_dataset rb xs (Finite 1) g = (Inr (train, []), g') \<and> length train = length xs"
    by auto
next
  obtain k where k: "split_index (length xs) (Finite 0) = Inr k"
    and hi: "k \<le> \<lceil>of_nat (length xs) * (0::rat)\<rceil>" and kn: "k \<le> int (length xs)" and k0: "0 \<le> k"
    using split_index_unit [OF assms, of 0] by auto
  have "k = 0" using hi k0 by simp
  then obtain train val g' where res: "split_dataset rb xs (Finite 0) g = (Inr (train, val), g')"
    and lt: "length train = 0" and lv: "length val = length xs"
    using split_dataset_sizes [OF k k0 kn, of rb g] by auto
  then show "\<exists>val g'. split_dataset rb xs (Finite 0) g = (Inr ([], val), g') \<and> length val = length xs"
    by auto
qed

theorem split_sizes_witness:
  "(\<exists>train val g'. split_dataset lcg_randbelow (replicate 10 ''x'') (round_double (9 / 10)) (lcg_seed 42)
        = (Inr (train, val), g') \<and> length train = 9 \<and> length val = 1)
   \<and> split_dataset lcg_randbelow ([] :: string list) (Finite (1 / 2)) (lcg_seed 42) = (Inr ([], []), lcg_seed 42)
   \<and> (\<exists>train val g'. split_dataset lcg_randbelow [''a'', ''b'', ''c''] (Finite (1 / 2)) (lcg_seed 42)
        = (Inr (train, val), g') \<and> int (length train) = 1 \<and> length val = 2)"
proof -
  have a: "length (replicate 10 ''x'') < 2 ^ 53" by simp
  have b: "length ([] :: string list) < 2 ^ 53" by simp
  have c: "length [''a'', ''b'', ''c''] < 2 ^ 53" by simp
  have p1: "\<exists>train val g'. split_dataset lcg_randbelow (replicate 10 ''x'') (round_double (9 / 10)) (lcg_seed 42)
        = (Inr (train, val), g') \<and> length train = 9 \<and> length val = 1"
    using split_sizes [OF a, of "1 / 2" lcg_randbelow "lcg_seed 42"] by simp
  have p2: "split_dataset lcg_randbelow ([] :: string list) (Finite (1 / 2)) (lcg_seed 42) = (Inr ([], []), lcg_seed 42)"
    using split_sizes [OF b, of "1 / 2" lcg_randbelow "lcg_seed 42"] by simp
  have nr: "round_double (3 / 2) \<noteq> Finite 2" by (simp add: float_eval)
  have fl: "\<lfloor>of_nat (length [''a'', ''b'', ''c'']) * (1 / 2 :: rat)\<rfloor> = 1" by (simp add: floor_numeral_div)
  have "0 < (1 / 2 :: rat) \<and> (1 / 2 :: rat) < 1" by simp
  with split_sizes [OF c, of "1 / 2" lcg_randbelow "lcg_seed 42"]
  obtain train val g' where res: "split_dataset lcg_randbelow [''a'', ''b'', ''c''] (Finite (1 / 2)) (lcg_seed 42) = (Inr (train, val), g')"
    and alt: "int (length train) = \<lfloor>of_nat (length [''a'', ''b'', ''c'']) * (1 / 2 :: rat)\<rfloor>
              \<or> int (length train) = \<lfloor>of_nat (length [''a'', ''b'', ''c'']) * (1 / 2 :: rat)\<rfloor> + 1"
    and iff: "int (length train) = \<lfloor>of_nat (length [''a'', ''b'', ''c'']) * (1 / 2 :: rat)\<rfloor> + 1 \<longleftrightarrow>
              round_double (of_nat (length [''a'', ''b'', ''c'']) * (1 / 2)) = Finite (of_int (\<lfloor>of_nat (length [''a'', ''b'', ''c'']) * (1 / 2 :: rat)\<rfloor> + 1))"
    and lv: "length val = length [''a'', ''b'', ''c''] - length train"
    by blast
  have "int (length train) \<noteq> 2" using iff nr unfolding fl by simp
  then have lt: "int (length train) = 1" using alt unfolding fl by simp
  then have "length val = 2" using lv by simp
  then have p3: "\<exists>train val g'. split_dataset lcg_randbelow [''a'', ''b'', ''c''] (Finite (1 / 2)) (lcg_seed 42)
        = (Inr (train, val), g') \<and> int (length train) = 1 \<and> length val = 2"
    using res lt by blast
  show ?thesis by (intro conjI p1 p2 p3)
qed

text \<open>
  The size is not the exact rational floor.  The float nearest to 0.7 is below 0.7; its
  exact product with 10 is below 7, with floor 6, and rounds to 7.0: the train sequence of
  ten examples has 7 elements.  Read against the decimal instead, the float that
  \<^verbatim>\<open>0.29\<close> denotes gives 28 train elements of 100, where the floor of 100 times 29/100 is 29.
\<close>

theorem split_sizes_counterexample:
  "is_double (3152519739159347 / 4503599627370496)
   \<and> (0::rat) < 3152519739159347 / 4503599627370496
   \<and> (3152519739159347 / 4503599627370496 :: rat) < 1
   \<and> map_sum id (length \<circ> fst)
        (fst (split_dataset lcg_randbelow (replicate 10 ''x'')
               (Finite (3152519739159347 / 4503599627370496)) (lcg_seed 42))) = Inr 7
   \<and> \<lfloor>of_nat (length (replicate 10 ''x'')) * (3152519739159347 / 4503599627370496 :: rat)\<rfloor> = 6
   \<and> map_sum id (length \<circ> fst)
        (fst (split_dataset lcg_randbelow (replicate 100 ''x'') (round_double (29 / 100)) (lcg_seed 42))) = Inr 28
   \<and> \<lfloor>of_nat (length (replicate 100 ''x'')) * (29 / 100 :: rat)\<rfloor> = 29"
proof -
  have a: "is_double (3152519739159347 / 4503599627370496)" by (simp add: float_eval)
  have b: "(0::rat) < 3152519739159347 / 4503599627370496" by simp
  have c: "(3152519739159347 / 4503599627370496 :: rat) < 1" by simp
  have "split_index (length (replicate 10 ''x'')) (Finite (3152519739159347 / 4503599627370496)) = Inr 7"
    using split_index_10_of_7_10 by simp
  from split_dataset_train_length [OF this, of lcg_randbelow "lcg_seed 42"]
  have d: "map_sum id (length \<circ> fst)
        (fst (split_dataset lcg_randbelow (replicate 10 ''x'')
               (Finite (3152519739159347 / 4503599627370496)) (lcg_seed 42))) = Inr 7"
    by simp
  have e: "\<lfloor>of_nat (length (replicate 10 ''x'')) * (3152519739159347 / 4503599627370496 :: rat)\<rfloor> = 6"
    by (simp add: floor_numeral_div)
  have "split_index (length (replicate 100 ''x'')) (round_double (29 / 100)) = Inr 28"
    using split_index_100_of_29_100 by simp
  from split_dataset_train_length [OF this, of lcg_randbelow "lcg_seed 42"]
  have f: "map_sum id (length \<circ> fst)
        (fst (split_dataset lcg_randbelow (replicate 100 ''x'') (round_double (29 / 100)) (lcg_seed 42))) = Inr 28"
    by simp
  have g: "\<lfloor>of_nat (length (replicate 100 ''x'')) * (29 / 100 :: rat)\<rfloor> = 29"
    by simp
  show ?thesis by (intro conjI a b c d e f g)
qed

section \<open>The JSON text of a record\<close>

lemmas char_names = QUOTE_def BACKSLASH_def TAB_def BS_def FF_def LF_def CR_def



lemma of_char_split: "(of_char c :: nat) div 16 * 16 + of_char c mod 16 = of_char c"
  by simp




































lemma json_dumps_example:
  "json_dumps sample_repr (JObj [(''a'', JStr (''x'' @ [LF])), (''b'', JArr [JNum (Finite 1), JNull])])
   = [CHR ''{'', QUOTE, CHR ''a'', QUOTE, CHR '':'', CHR '' '', QUOTE, CHR ''x'', BACKSLASH, CHR ''n'', QUOTE,
      CHR '','', CHR '' '', QUOTE, CHR ''b'', QUOTE, CHR '':'', CHR '' '',
      CHR ''['', CHR ''1'', CHR ''.'', CHR ''0'', CHR '','', CHR '' '', CHR ''n'', CHR ''u'', CHR ''l'', CHR ''l'', CHR '']'',
      CHR ''}'']"
  by (simp add: dumps_string_def escape_char_def sample_repr_def char_names)




end
